theory Spec2Isabelle
  imports Main "HOL-Library.Word"
begin

section \<open>JavaScript strings\<close>

text \<open>
  A JavaScript string is a sequence of UTF-16 code units; \<open>length\<close>, \<open>trim\<close> and a
  regular expression without the \<open>u\<close> flag all work on code units. \<open>js\<close> writes an
  ASCII literal as such a sequence.
\<close>

type_synonym code_unit = "16 word"
type_synonym jsstring = "code_unit list"

definition js :: "string \<Rightarrow> jsstring" where
  "js s = map of_char s"

text \<open>
  ECMAScript's WhiteSpace and LineTerminator code points: the set that
  \<open>String.prototype.trim\<close> strips and that \<open>\s\<close> matches in a regular expression.
\<close>

definition isWhiteSpace :: "code_unit \<Rightarrow> bool" where
  "isWhiteSpace c =
     (c \<in> {0x0009, 0x000A, 0x000B, 0x000C, 0x000D, 0x0020, 0x00A0, 0x1680,
            0x2028, 0x2029, 0x202F, 0x205F, 0x3000, 0xFEFF}
      \<or> (0x2000 \<le> c \<and> c \<le> 0x200A))"

text \<open>\<open>String.prototype.trim\<close>: white space is removed from both ends.\<close>

definition trim :: "jsstring \<Rightarrow> jsstring" where
  "trim s = rev (dropWhile isWhiteSpace (rev (dropWhile isWhiteSpace s)))"

section \<open>The regular expression of validateEmail\<close>

text \<open>
  The fragment of the regular-expression language that the source uses: a pattern
  anchored at both ends (\<open>^...$\<close>, no flags) is a sequence of pieces, each an atom or
  an atom under \<open>+\<close>; an atom is a literal character or a negated class \<open>[^...]\<close>
  whose members are \<open>\s\<close> or single characters.
\<close>

datatype class_item = ClassSpace | ClassChar code_unit

datatype atom = Lit code_unit | NegClass "class_item list"

datatype piece = One atom | OneOrMore atom

fun item_matches :: "class_item \<Rightarrow> code_unit \<Rightarrow> bool" where
  "item_matches ClassSpace c = isWhiteSpace c"
| "item_matches (ClassChar d) c = (c = d)"

fun atom_matches :: "atom \<Rightarrow> code_unit \<Rightarrow> bool" where
  "atom_matches (Lit d) c = (c = d)"
| "atom_matches (NegClass items) c = (\<not> list_ex (\<lambda>i. item_matches i c) items)"

text \<open>
  Matching from the start of the input (\<open>^\<close>) to its end (\<open>$\<close>). A \<open>+\<close> takes one
  character and then either goes on taking (greedy, tried first) or hands over to the
  rest of the pattern (backtracking).
\<close>

fun matches :: "piece list \<Rightarrow> jsstring \<Rightarrow> bool" where
  "matches [] s = (s = [])"
| "matches (One a # ps) [] = False"
| "matches (One a # ps) (c # cs) = (atom_matches a c \<and> matches ps cs)"
| "matches (OneOrMore a # ps) [] = False"
| "matches (OneOrMore a # ps) (c # cs) =
     (atom_matches a c \<and> (matches (OneOrMore a # ps) cs \<or> matches ps cs))"

text \<open>\<open>/^[^\s@]+@[^\s@]+\.[^\s@]+$/\<close>; \<open>@\<close> is 0x40 and \<open>.\<close> is 0x2E.\<close>

definition emailRegex :: "piece list" where
  "emailRegex =
     [OneOrMore (NegClass [ClassSpace, ClassChar 0x40]), One (Lit 0x40),
      OneOrMore (NegClass [ClassSpace, ClassChar 0x40]), One (Lit 0x2E),
      OneOrMore (NegClass [ClassSpace, ClassChar 0x40])]"

text \<open>The characters that the class \<open>[^\s@]\<close> matches.\<close>

definition emailChar :: "code_unit \<Rightarrow> bool" where
  "emailChar c = (\<not> isWhiteSpace c \<and> c \<noteq> 0x40)"

text \<open>
  The pattern in the words of the specification, for comparison with the source's:
  non-space characters, \<open>@\<close>, non-space characters, \<open>.\<close>, non-space characters.
\<close>

definition specEmailPattern :: "piece list" where
  "specEmailPattern =
     [OneOrMore (NegClass [ClassSpace]), One (Lit 0x40),
      OneOrMore (NegClass [ClassSpace]), One (Lit 0x2E),
      OneOrMore (NegClass [ClassSpace])]"

section \<open>The page\<close>

text \<open>
  The part of the document that the contact form's handlers read and write. Each of
  the three controls comes with its error element (\<open>name-error\<close>, \<open>email-error\<close>,
  \<open>message-error\<close>): the element's text, whether its class list holds \<open>show\<close>, and
  the border colour of the control.
\<close>

datatype field = Name | Email | Message

record form_field =
  fvalue :: jsstring
  error_text :: string
  error_show :: bool
  border_color :: string

text \<open>
  A callback handed to \<open>setTimeout\<close>, with what its closure captured: the button's
  original markup, or the notification element.
\<close>

datatype callback = SubmissionDone string | AutoRemove nat

text \<open>
  Notification elements are told apart by the order of their creation: \<open>created\<close>
  counts the elements made so far, \<open>body_notifications\<close> lists those attached to the
  body. \<open>timers\<close> holds the pending timeouts with the time (in ms) each is due.
\<close>

record dom =
  name_field :: form_field
  email_field :: form_field
  message_field :: form_field
  submit_html :: string
  submit_disabled :: bool
  head_styles :: nat
  body_notifications :: "nat list"
  created :: nat
  timers :: "(nat \<times> callback) list"
  now :: nat

fun get_field :: "field \<Rightarrow> dom \<Rightarrow> form_field" where
  "get_field Name s = name_field s"
| "get_field Email s = email_field s"
| "get_field Message s = message_field s"

fun set_field :: "field \<Rightarrow> form_field \<Rightarrow> dom \<Rightarrow> dom" where
  "set_field Name x s = s\<lparr>name_field := x\<rparr>"
| "set_field Email x s = s\<lparr>email_field := x\<rparr>"
| "set_field Message x s = s\<lparr>message_field := x\<rparr>"

text \<open>The user types into a control.\<close>

definition setValue :: "field \<Rightarrow> jsstring \<Rightarrow> dom \<Rightarrow> dom" where
  "setValue f v s = set_field f ((get_field f s)\<lparr>fvalue := v\<rparr>) s"

section \<open>Validation\<close>

text \<open>
  Modelled from the spec: the page's markup is not under src/, so which control
  \<open>errorElement.parentElement.querySelector('input, textarea')\<close> finds is taken from
  the specification (the error display attaches to each field's presentation): the
  control of the same field.
\<close>

definition showError :: "field \<Rightarrow> string \<Rightarrow> dom \<Rightarrow> dom" where
  "showError f message s =
     set_field f ((get_field f s)
       \<lparr>error_text := message, error_show := True, border_color := ''#ff4757''\<rparr>) s"

definition hideError :: "field \<Rightarrow> dom \<Rightarrow> dom" where
  "hideError f s =
     set_field f ((get_field f s)
       \<lparr>error_show := False, border_color := ''rgba(255, 255, 255, 0.1)''\<rparr>) s"

definition validateName :: "dom \<Rightarrow> bool \<times> dom" where
  "validateName s =
     (let name = trim (fvalue (name_field s)) in
      if length name < 2
      then (False, showError Name ''Name must be at least 2 characters long'' s)
      else (True, hideError Name s))"

definition validateEmail :: "dom \<Rightarrow> bool \<times> dom" where
  "validateEmail s =
     (let email = trim (fvalue (email_field s)) in
      if \<not> matches emailRegex email
      then (False, showError Email ''Please enter a valid email address'' s)
      else (True, hideError Email s))"

definition validateMessage :: "dom \<Rightarrow> bool \<times> dom" where
  "validateMessage s =
     (let message = trim (fvalue (message_field s)) in
      if length message < 10
      then (False, showError Message ''Message must be at least 10 characters long'' s)
      else (True, hideError Message s))"

definition validateForm :: "dom \<Rightarrow> bool \<times> dom" where
  "validateForm s =
     (let (nameValid, s1) = validateName s;
          (emailValid, s2) = validateEmail s1;
          (messageValid, s3) = validateMessage s2
      in (nameValid \<and> emailValid \<and> messageValid, s3))"

text \<open>The blur listener of each control runs that control's validator.\<close>

fun validate :: "field \<Rightarrow> dom \<Rightarrow> bool \<times> dom" where
  "validate Name s = validateName s"
| "validate Email s = validateEmail s"
| "validate Message s = validateMessage s"

text \<open>The reason each validator shows when it fails.\<close>

definition reason :: "field \<Rightarrow> string" where
  "reason f =
     (case f of
        Name \<Rightarrow> ''Name must be at least 2 characters long''
      | Email \<Rightarrow> ''Please enter a valid email address''
      | Message \<Rightarrow> ''Message must be at least 10 characters long'')"

section \<open>Submission\<close>

text \<open>\<open>setTimeout\<close>: the callback becomes due \<open>delay\<close> ms from now.\<close>

definition setTimeout :: "callback \<Rightarrow> nat \<Rightarrow> dom \<Rightarrow> dom" where
  "setTimeout cb delay s = s\<lparr>timers := timers s @ [(now s + delay, cb)]\<rparr>"

text \<open>\<open>notification.remove()\<close>: detaching an element that is not attached does nothing.\<close>

definition removeElement :: "nat \<Rightarrow> dom \<Rightarrow> dom" where
  "removeElement n s = s\<lparr>body_notifications := removeAll n (body_notifications s)\<rparr>"

text \<open>The timeout callback of showSuccessMessage, and the click listener of its close button.\<close>

definition autoRemove :: "nat \<Rightarrow> dom \<Rightarrow> dom" where
  "autoRemove n s = (if n \<in> set (body_notifications s) then removeElement n s else s)"

definition closeNotification :: "nat \<Rightarrow> dom \<Rightarrow> dom" where
  "closeNotification n s = removeElement n s"

definition showSuccessMessage :: "dom \<Rightarrow> dom" where
  "showSuccessMessage s =
     (let notification = created s;
          s1 = s\<lparr>created := created s + 1\<rparr>;
          s2 = s1\<lparr>head_styles := head_styles s1 + 1\<rparr>;
          s3 = s2\<lparr>body_notifications := body_notifications s2 @ [notification]\<rparr>
      in setTimeout (AutoRemove notification) 5000 s3)"

text \<open>
  Modelled from the spec: \<open>form.reset()\<close> gives every control the default value of
  the page's markup, which is not under src/; the specification says that the
  submission clears all field values, so the default of each control is the empty string.
\<close>

definition defaultValue :: "field \<Rightarrow> jsstring" where
  "defaultValue f = []"

definition formReset :: "dom \<Rightarrow> dom" where
  "formReset s =
     setValue Message (defaultValue Message)
       (setValue Email (defaultValue Email) (setValue Name (defaultValue Name) s))"

definition loadingHtml :: string where
  "loadingHtml = ''<i class=\"fas fa-spinner fa-spin\"></i> Sending...''"

text \<open>The callback of handleFormSubmission's timeout; it captured \<open>originalText\<close>.\<close>

definition submissionDone :: "string \<Rightarrow> dom \<Rightarrow> dom" where
  "submissionDone originalText s =
     (let s1 = showSuccessMessage s;
          s2 = formReset s1
      in s2\<lparr>submit_html := originalText, submit_disabled := False\<rparr>)"

definition handleFormSubmission :: "dom \<Rightarrow> dom" where
  "handleFormSubmission s =
     (let originalText = submit_html s;
          s1 = s\<lparr>submit_html := loadingHtml, submit_disabled := True\<rparr>
      in setTimeout (SubmissionDone originalText) 2000 s1)"

text \<open>The form's submit listener.\<close>

definition onSubmit :: "dom \<Rightarrow> dom" where
  "onSubmit s =
     (let (isValid, s1) = validateForm s in
      if isValid then handleFormSubmission s1 else s1)"

section \<open>Events\<close>

text \<open>
  What can happen to the page: the user types into a control, leaves one, submits
  the form or clicks the close button of a notification; time passes; the timeout
  that is due first fires. A disabled submit button submits nothing, and only a
  notification that is attached can be clicked.
\<close>

datatype event =
  Input field jsstring | Blur field | Submit | CloseClick nat | Tick nat | Fire

fun run_callback :: "callback \<Rightarrow> dom \<Rightarrow> dom" where
  "run_callback (SubmissionDone originalText) s = submissionDone originalText s"
| "run_callback (AutoRemove n) s = autoRemove n s"

text \<open>The pending timeout that is due first; of two due together, the one set first.\<close>

fun earliest :: "(nat \<times> callback) list \<Rightarrow> (nat \<times> callback) option" where
  "earliest [] = None"
| "earliest (t # ts) =
     (case earliest ts of
        None \<Rightarrow> Some t
      | Some u \<Rightarrow> if fst u < fst t then Some u else Some t)"

fun step :: "event \<Rightarrow> dom \<Rightarrow> dom option" where
  "step (Input f v) s = Some (setValue f v s)"
| "step (Blur f) s = Some (snd (validate f s))"
| "step Submit s = (if submit_disabled s then None else Some (onSubmit s))"
| "step (CloseClick n) s =
     (if n \<in> set (body_notifications s) then Some (closeNotification n s) else None)"
| "step (Tick d) s = Some (s\<lparr>now := now s + d\<rparr>)"
| "step Fire s =
     (case earliest (timers s) of
        None \<Rightarrow> None
      | Some t \<Rightarrow>
          if fst t \<le> now s
          then Some (run_callback (snd t) (s\<lparr>timers := remove1 t (timers s)\<rparr>))
          else None)"

fun run :: "event list \<Rightarrow> dom \<Rightarrow> dom option" where
  "run [] s = Some s"
| "run (e # es) s = (case step e s of None \<Rightarrow> None | Some s' \<Rightarrow> run es s')"

text \<open>The page as loaded: the button enabled, no notification made, no timeout pending.\<close>

definition pageLoaded :: "dom \<Rightarrow> bool" where
  "pageLoaded s =
     (\<not> submit_disabled s \<and> body_notifications s = [] \<and> created s = 0 \<and> timers s = [])"

inductive reachable :: "dom \<Rightarrow> bool" where
  loaded: "pageLoaded s \<Longrightarrow> reachable s"
| after: "reachable s \<Longrightarrow> step e s = Some s' \<Longrightarrow> reachable s'"

text \<open>
  The specification's SubmissionState, read off the page: Submitting while the
  button is disabled, Succeeded while a notification is shown, Idle otherwise.
\<close>

datatype submission_state = Idle | Submitting | Succeeded

definition submissionState :: "dom \<Rightarrow> submission_state" where
  "submissionState s =
     (if submit_disabled s then Submitting
      else if body_notifications s \<noteq> [] then Succeeded
      else Idle)"

text \<open>A page for examples: empty controls, a button reading Send Message.\<close>

definition emptyField :: form_field where
  "emptyField = \<lparr>fvalue = [], error_text = [], error_show = False, border_color = []\<rparr>"

definition examplePage :: dom where
  "examplePage =
     \<lparr>name_field = emptyField, email_field = emptyField, message_field = emptyField,
      submit_html = ''Send Message'', submit_disabled = False, head_styles = 0,
      body_notifications = [], created = 0, timers = [], now = 0\<rparr>"

definition filled :: "string \<Rightarrow> string \<Rightarrow> string \<Rightarrow> dom" where
  "filled n e m =
     setValue Message (js m) (setValue Email (js e) (setValue Name (js n) examplePage))"

definition fillForm :: "string \<Rightarrow> string \<Rightarrow> string \<Rightarrow> event list" where
  "fillForm n e m = [Input Name (js n), Input Email (js e), Input Message (js m)]"

text \<open>
  What holds of the notifications of every reachable page: those attached are distinct
  elements that have been created, each with its own removal timeout still pending
  and due at most 5000 ms from now.
\<close>

definition tracked :: "dom \<Rightarrow> bool" where
  "tracked s =
     (distinct (body_notifications s) \<and>
      list_all (\<lambda>n. n < created s \<and>
          list_ex (\<lambda>t. fst t \<le> now s + 5000 \<and> snd t = AutoRemove n) (timers s))
        (body_notifications s))"

text \<open>
  Two runs from the example page, with the pages they end in: a second submission
  completed 2000 ms after the first, and a notification closed by hand 5000 ms before
  its removal timeout is due.
\<close>

definition resubmission :: "event list" where
  "resubmission =
     fillForm ''Jo'' ''a@b.co'' ''Hello there'' @ [Submit, Tick 2000, Fire] @
     fillForm ''Jo'' ''a@b.co'' ''Hello again'' @ [Submit, Tick 2000, Fire]"

definition dismissal :: "event list" where
  "dismissal =
     fillForm ''Jo'' ''a@b.co'' ''Hello there'' @ [Submit, Tick 2000, Fire, CloseClick 0, Tick 5000]"

definition clearedField :: form_field where
  "clearedField =
     \<lparr>fvalue = [], error_text = [], error_show = False,
      border_color = ''rgba(255, 255, 255, 0.1)''\<rparr>"

definition stackedPage :: dom where
  "stackedPage =
     \<lparr>name_field = clearedField, email_field = clearedField, message_field = clearedField,
      submit_html = ''Send Message'', submit_disabled = False, head_styles = 2,
      body_notifications = [0, 1], created = 2,
      timers = [(7000, AutoRemove 0), (9000, AutoRemove 1)], now = 4000\<rparr>"

definition dismissedPage :: dom where
  "dismissedPage =
     \<lparr>name_field = clearedField, email_field = clearedField, message_field = clearedField,
      submit_html = ''Send Message'', submit_disabled = False, head_styles = 1,
      body_notifications = [], created = 1,
      timers = [(7000, AutoRemove 0)], now = 7000\<rparr>"

section \<open>Properties of trim and of matching\<close>

lemma dropWhile_trimmed:
  "dropWhile P (rev (dropWhile P (rev (dropWhile P s)))) = rev (dropWhile P (rev (dropWhile P s)))"
proof (cases "rev (dropWhile P (rev (dropWhile P s))) = []")
  case True
  show ?thesis by (simp only: True dropWhile.simps)
next
  case False
  define t where "t = dropWhile P s"
  define u where "u = rev (dropWhile P (rev t))"
  from False have u: "u \<noteq> []" by (simp add: u_def t_def)
  have "\<exists>w. t = u @ w"
  proof -
    have "rev t = takeWhile P (rev t) @ dropWhile P (rev t)" by simp
    then have "t = rev (dropWhile P (rev t)) @ rev (takeWhile P (rev t))"
      by (metis rev_append rev_rev_ident)
    then show ?thesis unfolding u_def by blast
  qed
  then obtain w where w: "t = u @ w" by blast
  with u have "hd u = hd t" by simp
  moreover have "t \<noteq> []" using u w by simp
  then have "\<not> P (hd t)" unfolding t_def by (rule hd_dropWhile)
  ultimately have "\<not> P (hd u)" by simp
  with u have "dropWhile P u = u" by (cases u) simp_all
  then show ?thesis by (simp add: u_def t_def)
qed

lemma trim_idem: "trim (trim s) = trim s"
  by (simp add: trim_def dropWhile_trimmed)

lemma matches_plus_fwd:
  "matches (OneOrMore a # ps) s \<Longrightarrow> (\<exists>u v. s = u @ v \<and> u \<noteq> [] \<and> (\<forall>c\<in>set u. atom_matches a c) \<and> matches ps v)"
proof (induction s)
  case Nil
  then show ?case by simp
next
  case (Cons c cs)
  from Cons.prems have c: "atom_matches a c" and alt: "matches (OneOrMore a # ps) cs \<or> matches ps cs"
    by simp_all
  from alt show ?case
  proof
    assume "matches (OneOrMore a # ps) cs"
    then obtain u v where uv: "cs = u @ v" "u \<noteq> []" "\<forall>c\<in>set u. atom_matches a c" "matches ps v"
      using Cons.IH by blast
    have "c # cs = (c # u) @ v \<and> c # u \<noteq> [] \<and> (\<forall>x\<in>set (c # u). atom_matches a x) \<and> matches ps v"
      using uv c by simp
    then show ?thesis by blast
  next
    assume "matches ps cs"
    then have "c # cs = [c] @ cs \<and> [c] \<noteq> [] \<and> (\<forall>x\<in>set [c]. atom_matches a x) \<and> matches ps cs"
      using c by simp
    then show ?thesis by blast
  qed
qed

lemma matches_plus_bwd:
  "u \<noteq> [] \<Longrightarrow> \<forall>c\<in>set u. atom_matches a c \<Longrightarrow> matches ps v \<Longrightarrow> matches (OneOrMore a # ps) (u @ v)"
proof (induction u)
  case Nil
  then show ?case by simp
next
  case (Cons c u)
  show ?case
  proof (cases "u = []")
    case True
    then show ?thesis using Cons.prems by simp
  next
    case False
    then have "matches (OneOrMore a # ps) (u @ v)"
      using Cons by simp
    then show ?thesis using Cons.prems by simp
  qed
qed

lemma matches_one: "matches (One a # ps) s \<longleftrightarrow> (\<exists>c v. s = c # v \<and> atom_matches a c \<and> matches ps v)"
  by (cases s) auto

lemma atom_emailChar: "atom_matches (NegClass [ClassSpace, ClassChar 0x40]) c = emailChar c"
  by (simp add: emailChar_def)

lemma matches_emailRegex_fwd:
  assumes "matches emailRegex s"
  shows "\<exists>a b c. s = a @ [0x40] @ b @ [0x2E] @ c \<and> a \<noteq> [] \<and> b \<noteq> [] \<and> c \<noteq> [] \<and>
        (\<forall>x\<in>set a. emailChar x) \<and> (\<forall>x\<in>set b. emailChar x) \<and> (\<forall>x\<in>set c. emailChar x)"
proof -
  let ?seg = "NegClass [ClassSpace, ClassChar 0x40]"
  let ?p3 = "[OneOrMore ?seg]"
  let ?p2 = "OneOrMore ?seg # One (Lit 0x2E) # ?p3"
  from assms obtain a r1 where a: "s = a @ r1" "a \<noteq> []" "\<forall>x\<in>set a. atom_matches ?seg x"
      and r1: "matches (One (Lit 0x40) # ?p2) r1"
    unfolding emailRegex_def by (blast dest: matches_plus_fwd)
  from r1 obtain r2 where r2: "r1 = 0x40 # r2" "matches ?p2 r2"
    by (auto simp: matches_one)
  from r2(2) obtain b r3 where b: "r2 = b @ r3" "b \<noteq> []" "\<forall>x\<in>set b. atom_matches ?seg x"
      and r3: "matches (One (Lit 0x2E) # ?p3) r3"
    by (blast dest: matches_plus_fwd)
  from r3 obtain r4 where r4: "r3 = 0x2E # r4" "matches ?p3 r4"
    by (auto simp: matches_one)
  from r4(2) obtain c r5 where c: "r4 = c @ r5" "c \<noteq> []" "\<forall>x\<in>set c. atom_matches ?seg x"
      and r5: "matches [] r5"
    by (blast dest: matches_plus_fwd)
  from r5 have "r5 = []" by simp
  with a b c r2 r4 have "s = a @ [0x40] @ b @ [0x2E] @ c" by simp
  moreover have "(\<forall>x\<in>set a. emailChar x) \<and> (\<forall>x\<in>set b. emailChar x) \<and> (\<forall>x\<in>set c. emailChar x)"
    using a(3) b(3) c(3) by (simp only: atom_emailChar)
  ultimately show ?thesis using a(2) b(2) c(2) by blast
qed

lemma matches_emailRegex_bwd:
  assumes "a \<noteq> []" "b \<noteq> []" "c \<noteq> []"
    and "\<forall>x\<in>set a. emailChar x" "\<forall>x\<in>set b. emailChar x" "\<forall>x\<in>set c. emailChar x"
  shows "matches emailRegex (a @ [0x40] @ b @ [0x2E] @ c)"
proof -
  let ?seg = "NegClass [ClassSpace, ClassChar 0x40]"
  have seg: "\<forall>x\<in>set a. atom_matches ?seg x" "\<forall>x\<in>set b. atom_matches ?seg x"
    "\<forall>x\<in>set c. atom_matches ?seg x"
    using assms(4-6) by (simp_all only: atom_emailChar)
  have "matches [OneOrMore ?seg] (c @ [])"
    using assms(3) seg(3) by (intro matches_plus_bwd) simp_all
  then have "matches (One (Lit 0x2E) # [OneOrMore ?seg]) ([0x2E] @ c)"
    by simp
  then have "matches (OneOrMore ?seg # One (Lit 0x2E) # [OneOrMore ?seg]) (b @ [0x2E] @ c)"
    using assms(2) seg(2) by (intro matches_plus_bwd)
  then have "matches (One (Lit 0x40) # OneOrMore ?seg # One (Lit 0x2E) # [OneOrMore ?seg])
      ([0x40] @ b @ [0x2E] @ c)"
    by simp
  then show ?thesis
    unfolding emailRegex_def using assms(1) seg(1) by (intro matches_plus_bwd)
qed

section \<open>What a validator reads and writes\<close>

lemma showError_frame:
  "get_field g (showError f m s) =
     (if f = g then (get_field f s)\<lparr>error_text := m, error_show := True, border_color := ''#ff4757''\<rparr>
      else get_field g s)"
  by (cases f; cases g) (simp_all add: showError_def)

lemma hideError_frame:
  "get_field g (hideError f s) =
     (if f = g then (get_field f s)\<lparr>error_show := False, border_color := ''rgba(255, 255, 255, 0.1)''\<rparr>
      else get_field g s)"
  by (cases f; cases g) (simp_all add: hideError_def)

lemma showError_rest:
  "submit_html (showError f m s) = submit_html s"
  "submit_disabled (showError f m s) = submit_disabled s"
  "head_styles (showError f m s) = head_styles s"
  "body_notifications (showError f m s) = body_notifications s"
  "created (showError f m s) = created s"
  "timers (showError f m s) = timers s"
  "now (showError f m s) = now s"
  by (cases f; simp add: showError_def)+

lemma hideError_rest:
  "submit_html (hideError f s) = submit_html s"
  "submit_disabled (hideError f s) = submit_disabled s"
  "head_styles (hideError f s) = head_styles s"
  "body_notifications (hideError f s) = body_notifications s"
  "created (hideError f s) = created s"
  "timers (hideError f s) = timers s"
  "now (hideError f s) = now s"
  by (cases f; simp add: hideError_def)+

lemma validate_cases:
  "validate f s =
     (if fst (validate f s) then (True, hideError f s) else (False, showError f (reason f) s))"
  by (cases f) (simp_all add: validateName_def validateEmail_def validateMessage_def reason_def Let_def)

lemma validate_snd:
  "snd (validate f s) = (if fst (validate f s) then hideError f s else showError f (reason f) s)"
  by (subst validate_cases) simp

lemma validate_field:
  "get_field g (snd (validate f s)) =
     (if f = g
      then (if fst (validate f s)
            then (get_field f s)\<lparr>error_show := False, border_color := ''rgba(255, 255, 255, 0.1)''\<rparr>
            else (get_field f s)\<lparr>error_text := reason f,
                   error_show := True, border_color := ''#ff4757''\<rparr>)
      else get_field g s)"
  by (simp add: validate_snd showError_frame hideError_frame)

lemma validate_rest:
  "submit_html (snd (validate f s)) = submit_html s"
  "submit_disabled (snd (validate f s)) = submit_disabled s"
  "head_styles (snd (validate f s)) = head_styles s"
  "body_notifications (snd (validate f s)) = body_notifications s"
  "created (snd (validate f s)) = created s"
  "timers (snd (validate f s)) = timers s"
  "now (snd (validate f s)) = now s"
  by (simp_all add: validate_snd showError_rest hideError_rest)

lemma validate_fvalue: "fvalue (get_field g (snd (validate f s))) = fvalue (get_field g s)"
  by (simp add: validate_field)

lemma validate_fst_fvalue:
  "fvalue (get_field f s') = fvalue (get_field f s) \<Longrightarrow> fst (validate f s') = fst (validate f s)"
  by (cases f) (simp_all add: validateName_def validateEmail_def validateMessage_def Let_def)

lemma validateForm_validate:
  "validateForm s =
     (fst (validate Name s) \<and> fst (validate Email (snd (validate Name s))) \<and>
        fst (validate Message (snd (validate Email (snd (validate Name s))))),
      snd (validate Message (snd (validate Email (snd (validate Name s))))))"
  by (simp add: validateForm_def split_beta)

lemma validateForm_fst:
  "fst (validateForm s) = (fst (validate Name s) \<and> fst (validate Email s) \<and> fst (validate Message s))"
proof -
  have "fst (validate Email (snd (validate Name s))) = fst (validate Email s)"
    by (rule validate_fst_fvalue) (rule validate_fvalue)
  moreover have "fst (validate Message (snd (validate Email (snd (validate Name s))))) =
      fst (validate Message s)"
    by (rule validate_fst_fvalue) (simp only: validate_fvalue)
  ultimately show ?thesis by (simp only: validateForm_validate fst_conv)
qed

lemma validateForm_field:
  "get_field f (snd (validateForm s)) = get_field f (snd (validate f s))"
proof -
  have e: "fst (validate Email (snd (validate Name s))) = fst (validate Email s)"
    by (rule validate_fst_fvalue) (rule validate_fvalue)
  have m: "fst (validate Message (snd (validate Email (snd (validate Name s))))) =
      fst (validate Message s)"
    by (rule validate_fst_fvalue) (simp only: validate_fvalue)
  show ?thesis
    by (cases f) (simp_all only: validateForm_validate snd_conv validate_field e m field.simps if_True if_False)
qed

lemma validateForm_rest:
  "submit_html (snd (validateForm s)) = submit_html s"
  "submit_disabled (snd (validateForm s)) = submit_disabled s"
  "head_styles (snd (validateForm s)) = head_styles s"
  "body_notifications (snd (validateForm s)) = body_notifications s"
  "created (snd (validateForm s)) = created s"
  "timers (snd (validateForm s)) = timers s"
  "now (snd (validateForm s)) = now s"
  by (simp_all only: validateForm_validate snd_conv validate_rest)

section \<open>What the submission reads and writes\<close>

lemma setValue_rest:
  "submit_html (setValue f v s) = submit_html s"
  "submit_disabled (setValue f v s) = submit_disabled s"
  "head_styles (setValue f v s) = head_styles s"
  "body_notifications (setValue f v s) = body_notifications s"
  "created (setValue f v s) = created s"
  "timers (setValue f v s) = timers s"
  "now (setValue f v s) = now s"
  by (cases f; simp add: setValue_def)+

lemma formReset_fvalue: "fvalue (get_field f (formReset s)) = []"
  by (cases f) (simp_all add: formReset_def setValue_def defaultValue_def)

lemma formReset_rest:
  "submit_html (formReset s) = submit_html s"
  "submit_disabled (formReset s) = submit_disabled s"
  "head_styles (formReset s) = head_styles s"
  "body_notifications (formReset s) = body_notifications s"
  "created (formReset s) = created s"
  "timers (formReset s) = timers s"
  "now (formReset s) = now s"
  by (simp_all add: formReset_def setValue_rest)

lemma showSuccessMessage_facts:
  "body_notifications (showSuccessMessage s) = body_notifications s @ [created s]"
  "created (showSuccessMessage s) = created s + 1"
  "timers (showSuccessMessage s) = timers s @ [(now s + 5000, AutoRemove (created s))]"
  "head_styles (showSuccessMessage s) = head_styles s + 1"
  "now (showSuccessMessage s) = now s"
  "submit_html (showSuccessMessage s) = submit_html s"
  "submit_disabled (showSuccessMessage s) = submit_disabled s"
  by (simp_all add: showSuccessMessage_def setTimeout_def Let_def)

lemma submissionDone_facts:
  "body_notifications (submissionDone t s) = body_notifications s @ [created s]"
  "created (submissionDone t s) = created s + 1"
  "timers (submissionDone t s) = timers s @ [(now s + 5000, AutoRemove (created s))]"
  "now (submissionDone t s) = now s"
  "submit_html (submissionDone t s) = t"
  "submit_disabled (submissionDone t s) = False"
  by (simp_all add: submissionDone_def Let_def formReset_rest showSuccessMessage_facts)

lemma submissionDone_fvalue: "fvalue (get_field f (submissionDone t s)) = []"
  using formReset_fvalue [of f "showSuccessMessage s"]
  by (cases f) (simp_all add: submissionDone_def Let_def)

lemma handleFormSubmission_facts:
  "body_notifications (handleFormSubmission s) = body_notifications s"
  "created (handleFormSubmission s) = created s"
  "timers (handleFormSubmission s) = timers s @ [(now s + 2000, SubmissionDone (submit_html s))]"
  "now (handleFormSubmission s) = now s"
  "submit_html (handleFormSubmission s) = loadingHtml"
  "submit_disabled (handleFormSubmission s) = True"
  "head_styles (handleFormSubmission s) = head_styles s"
  by (simp_all add: handleFormSubmission_def setTimeout_def Let_def)

lemma handleFormSubmission_field: "get_field f (handleFormSubmission s) = get_field f s"
  by (cases f) (simp_all add: handleFormSubmission_def setTimeout_def Let_def)

lemma onSubmit_valid: "fst (validateForm s) \<Longrightarrow> onSubmit s = handleFormSubmission (snd (validateForm s))"
  by (simp add: onSubmit_def split_beta)

lemma validateForm_fvalue: "fvalue (get_field f (snd (validateForm s))) = fvalue (get_field f s)"
  by (simp only: validateForm_field validate_fvalue)

lemma onSubmit_valid_facts:
  assumes "fst (validateForm s)"
  shows "body_notifications (onSubmit s) = body_notifications s"
    "created (onSubmit s) = created s"
    "timers (onSubmit s) = timers s @ [(now s + 2000, SubmissionDone (submit_html s))]"
    "now (onSubmit s) = now s"
    "submit_html (onSubmit s) = loadingHtml"
    "submit_disabled (onSubmit s) = True"
    "fvalue (get_field f (onSubmit s)) = fvalue (get_field f s)"
  by (simp_all add: onSubmit_valid [OF assms] handleFormSubmission_facts
      handleFormSubmission_field validateForm_rest validateForm_fvalue)

lemma earliest_snoc:
  "\<forall>t\<in>set ts. d < fst t \<Longrightarrow> earliest (ts @ [(d, cb)]) = Some (d, cb)"
  by (induction ts) auto

lemma remove1_snoc: "x \<notin> set xs \<Longrightarrow> remove1 x (xs @ [x]) = xs"
  by (induction xs) auto

lemma run_submission:
  assumes valid: "fst (validateForm s)" and enabled: "\<not> submit_disabled s"
    and later: "\<forall>t\<in>set (timers s). now s + 2000 < fst t"
  shows "run [Submit, Tick 2000, Fire] s =
    Some (submissionDone (submit_html s) ((onSubmit s)\<lparr>now := now s + 2000, timers := timers s\<rparr>))"
proof -
  let ?t = "(now s + 2000, SubmissionDone (submit_html s))"
  have e: "earliest (timers s @ [?t]) = Some ?t"
    using later by (rule earliest_snoc)
  have "?t \<notin> set (timers s)" using later by auto
  then have r: "remove1 ?t (timers s @ [?t]) = timers s" by (rule remove1_snoc)
  show ?thesis
    using enabled by (simp add: onSubmit_valid_facts [OF valid] e r)
qed

section \<open>Reachable pages\<close>

lemma tracked_iff:
  "tracked s \<longleftrightarrow>
     distinct (body_notifications s) \<and>
     (\<forall>n\<in>set (body_notifications s). n < created s \<and>
        (\<exists>d. d \<le> now s + 5000 \<and> (d, AutoRemove n) \<in> set (timers s)))"
  unfolding tracked_def list_all_iff list_ex_iff by (rule conj_cong [OF refl]) force

lemma tracked_mono:
  assumes "tracked s"
    and "distinct (body_notifications s')"
    and "set (body_notifications s') \<subseteq> set (body_notifications s)"
    and "created s \<le> created s'" and "now s \<le> now s'"
    and "\<And>n d. n \<in> set (body_notifications s') \<Longrightarrow> (d, AutoRemove n) \<in> set (timers s)
           \<Longrightarrow> (d, AutoRemove n) \<in> set (timers s')"
  shows "tracked s'"
  unfolding tracked_iff
proof (intro conjI ballI)
  show "distinct (body_notifications s')" by fact
next
  fix n assume n: "n \<in> set (body_notifications s')"
  then have "n \<in> set (body_notifications s)" using assms(3) by blast
  with assms(1) obtain d where d: "n < created s" "d \<le> now s + 5000"
      "(d, AutoRemove n) \<in> set (timers s)"
    unfolding tracked_iff by blast
  from assms(6) [OF n d(3)] d(1,2) assms(4,5)
  show "n < created s'" and "\<exists>d. d \<le> now s' + 5000 \<and> (d, AutoRemove n) \<in> set (timers s')"
    by (auto intro: exI [of _ d])
qed

lemma onSubmit_cases:
  "onSubmit s = (if fst (validateForm s) then handleFormSubmission (snd (validateForm s))
                 else snd (validateForm s))"
  by (simp add: onSubmit_def split_beta)

lemma onSubmit_tracking:
  "body_notifications (onSubmit s) = body_notifications s"
  "created (onSubmit s) = created s"
  "now (onSubmit s) = now s"
  "set (timers s) \<subseteq> set (timers (onSubmit s))"
  by (auto simp: onSubmit_cases handleFormSubmission_facts validateForm_rest)

lemma removeElement_facts:
  "body_notifications (removeElement n s) = removeAll n (body_notifications s)"
  "created (removeElement n s) = created s"
  "now (removeElement n s) = now s"
  "timers (removeElement n s) = timers s"
  by (simp_all add: removeElement_def)

lemma autoRemove_removeElement: "autoRemove n s = removeElement n s"
  by (simp add: autoRemove_def removeElement_def)

lemma tracked_submissionDone:
  assumes "tracked (s\<lparr>timers := ts\<rparr>)"
  shows "tracked (submissionDone orig (s\<lparr>timers := ts\<rparr>))"
  using assms unfolding tracked_iff
  by (auto simp: submissionDone_facts less_Suc_eq)

lemma tracked_step:
  assumes "tracked s" and "step e s = Some s'"
  shows "tracked s'"
proof (cases e)
  case (Input f v)
  with assms(2) have "s' = setValue f v s" by simp
  with assms(1) show ?thesis by (simp add: tracked_def setValue_rest)
next
  case (Blur f)
  with assms(2) have "s' = snd (validate f s)" by simp
  with assms(1) show ?thesis by (simp add: tracked_def validate_rest)
next
  case Submit
  with assms(2) have s': "s' = onSubmit s" by (simp split: if_splits)
  show ?thesis
  proof (rule tracked_mono [OF assms(1)])
    fix n d assume "(d, AutoRemove n) \<in> set (timers s)"
    then show "(d, AutoRemove n) \<in> set (timers s')"
      using onSubmit_tracking(4) [of s] unfolding s' by blast
  qed (use assms(1) in \<open>auto simp: s' onSubmit_tracking(1-3) tracked_iff\<close>)
next
  case (CloseClick n)
  with assms(2) have s': "s' = removeElement n s"
    by (simp add: closeNotification_def split: if_splits)
  show ?thesis
    by (rule tracked_mono [OF assms(1)]) (use assms(1) in
      \<open>auto simp: s' removeElement_facts tracked_iff distinct_removeAll\<close>)
next
  case (Tick d)
  with assms(2) have s': "s' = s\<lparr>now := now s + d\<rparr>" by simp
  show ?thesis
    by (rule tracked_mono [OF assms(1)]) (use assms(1) in \<open>auto simp: s' tracked_iff\<close>)
next
  case Fire
  with assms(2) obtain t where t: "earliest (timers s) = Some t" "fst t \<le> now s"
      and s': "s' = run_callback (snd t) (s\<lparr>timers := remove1 t (timers s)\<rparr>)"
    by (auto split: option.splits if_splits)
  let ?s1 = "s\<lparr>timers := remove1 t (timers s)\<rparr>"
  show ?thesis
  proof (cases "snd t")
    case (SubmissionDone orig)
    have "tracked ?s1"
    proof (rule tracked_mono [OF assms(1)])
      fix n d assume "(d, AutoRemove n) \<in> set (timers s)"
      moreover have "(d, AutoRemove n) \<noteq> t" using SubmissionDone by auto
      ultimately show "(d, AutoRemove n) \<in> set (timers ?s1)" by simp
    qed (use assms(1) in \<open>auto simp: tracked_iff\<close>)
    then show ?thesis unfolding s' SubmissionDone run_callback.simps
      by (rule tracked_submissionDone)
  next
    case (AutoRemove m)
    have s'': "s' = removeElement m ?s1"
      by (simp add: s' AutoRemove autoRemove_removeElement)
    show ?thesis
    proof (rule tracked_mono [OF assms(1)])
      fix n d assume "n \<in> set (body_notifications s')" "(d, AutoRemove n) \<in> set (timers s)"
      then have "n \<noteq> m" by (simp add: s'' removeElement_facts)
      then have "(d, callback.AutoRemove n) \<noteq> t" using AutoRemove by auto
      with \<open>(d, AutoRemove n) \<in> set (timers s)\<close>
      show "(d, callback.AutoRemove n) \<in> set (timers s')"
        by (simp add: s'' removeElement_facts)
    qed (use assms(1) in \<open>auto simp: s'' removeElement_facts tracked_iff distinct_removeAll\<close>)
  qed
qed

lemma reachable_tracked: "reachable s \<Longrightarrow> tracked s"
proof (induction rule: reachable.induct)
  case (loaded s)
  then show ?case by (simp add: pageLoaded_def tracked_def)
next
  case (after s e s')
  then show ?case by (blast intro: tracked_step)
qed

lemma run_reachable: "reachable s \<Longrightarrow> run es s = Some s' \<Longrightarrow> reachable s'"
proof (induction es arbitrary: s)
  case Nil
  then show ?case by simp
next
  case (Cons e es)
  then show ?case by (auto split: option.splits intro: reachable.after)
qed

lemmas page_defs =
  fillForm_def examplePage_def emptyField_def clearedField_def setValue_def js_def trim_def
  isWhiteSpace_def emailRegex_def validateForm_def validateName_def validateEmail_def
  validateMessage_def showError_def hideError_def onSubmit_def handleFormSubmission_def
  setTimeout_def submissionDone_def showSuccessMessage_def formReset_def defaultValue_def
  loadingHtml_def closeNotification_def removeElement_def autoRemove_def Let_def

lemma run_resubmission: "run resubmission examplePage = Some stackedPage"
  by (simp add: resubmission_def stackedPage_def page_defs)

lemma run_dismissal: "run dismissal examplePage = Some dismissedPage"
  by (simp add: dismissal_def dismissedPage_def page_defs)

lemma examplePage_reachable: "reachable examplePage"
  by (rule reachable.loaded) (simp add: pageLoaded_def examplePage_def)

lemma stackedPage_reachable: "reachable stackedPage"
  using examplePage_reachable run_resubmission by (rule run_reachable)

lemma dismissedPage_reachable: "reachable dismissedPage"
  using examplePage_reachable run_dismissal by (rule run_reachable)

section \<open>The validators\<close>

text \<open>
  C6. For every input string, validateName fails, showing the reason
  ``Name must be at least 2 characters long'' in the name's error element, if the
  trimmed string is shorter than 2, and succeeds, hiding the error, otherwise.
\<close>

theorem validateName_trimmed_length:
  "(let r = validateName (setValue Name v s) in
     if length (trim v) < 2
     then \<not> fst r \<and> error_show (name_field (snd r)) \<and>
          error_text (name_field (snd r)) = ''Name must be at least 2 characters long''
     else fst r \<and> \<not> error_show (name_field (snd r)))"
  by (simp add: validateName_def setValue_def showError_def hideError_def)

text \<open>C6 on the names `` J '' (one character once trimmed) and ``Jo''.\<close>

theorem validateName_trimmed_length_witness:
  "\<not> fst (validateName (setValue Name (js '' J '') examplePage)) \<and>
   error_text (name_field (snd (validateName (setValue Name (js '' J '') examplePage)))) =
     ''Name must be at least 2 characters long'' \<and>
   fst (validateName (setValue Name (js ''Jo'') examplePage))"
  using validateName_trimmed_length [of "js '' J ''" examplePage]
    validateName_trimmed_length [of "js ''Jo''" examplePage]
  by (simp add: js_def trim_def isWhiteSpace_def Let_def)

text \<open>
  C7. For every input string, validateMessage fails, showing the reason
  ``Message must be at least 10 characters long'' in the message's error element, if
  the trimmed string is shorter than 10, and succeeds, hiding the error, otherwise.
\<close>

theorem validateMessage_trimmed_length:
  "(let r = validateMessage (setValue Message v s) in
     if length (trim v) < 10
     then \<not> fst r \<and> error_show (message_field (snd r)) \<and>
          error_text (message_field (snd r)) = ''Message must be at least 10 characters long''
     else fst r \<and> \<not> error_show (message_field (snd r)))"
  by (simp add: validateMessage_def setValue_def showError_def hideError_def)

text \<open>C7 on the messages ``short'' and ``Hello there, how are you?''.\<close>

theorem validateMessage_trimmed_length_witness:
  "\<not> fst (validateMessage (setValue Message (js ''short'') examplePage)) \<and>
   error_text (message_field (snd (validateMessage (setValue Message (js ''short'') examplePage)))) =
     ''Message must be at least 10 characters long'' \<and>
   fst (validateMessage (setValue Message (js ''Hello there, how are you?'') examplePage))"
  using validateMessage_trimmed_length [of "js ''short''" examplePage]
    validateMessage_trimmed_length [of "js ''Hello there, how are you?''" examplePage]
  by (simp add: js_def trim_def isWhiteSpace_def Let_def)

lemma validateEmail_fst: "fst (validateEmail (setValue Email v s)) = matches emailRegex (trim v)"
  by (simp add: validateEmail_def setValue_def)

text \<open>
  C3, amended. For every input string, validateEmail succeeds if and only if the
  trimmed string is one or more characters that are neither white space nor \<open>@\<close>,
  then \<open>@\<close>, then one or more such characters, then a dot, then one or more such
  characters. It succeeds on \<open>a@b.co\<close> and fails on \<open>a@b\<close>, on \<open>a b@c.com\<close> and on
  the empty string.
\<close>

theorem validateEmail_pattern:
  "(fst (validateEmail (setValue Email v s)) \<longleftrightarrow>
      (\<exists>a b c. trim v = a @ [0x40] @ b @ [0x2E] @ c \<and> a \<noteq> [] \<and> b \<noteq> [] \<and> c \<noteq> [] \<and>
         (\<forall>x\<in>set (a @ b @ c). \<not> isWhiteSpace x \<and> x \<noteq> 0x40))) \<and>
   fst (validateEmail (setValue Email (js ''a@b.co'') s)) \<and>
   \<not> fst (validateEmail (setValue Email (js ''a@b'') s)) \<and>
   \<not> fst (validateEmail (setValue Email (js ''a b@c.com'') s)) \<and>
   \<not> fst (validateEmail (setValue Email (js '''') s))"
proof -
  have "matches emailRegex (trim v) \<longleftrightarrow>
      (\<exists>a b c. trim v = a @ [0x40] @ b @ [0x2E] @ c \<and> a \<noteq> [] \<and> b \<noteq> [] \<and> c \<noteq> [] \<and>
         (\<forall>x\<in>set (a @ b @ c). \<not> isWhiteSpace x \<and> x \<noteq> 0x40))" (is "?l \<longleftrightarrow> ?r")
  proof
    assume ?l
    from matches_emailRegex_fwd [OF this] show ?r
      by (simp add: emailChar_def ball_Un)
  next
    assume ?r
    then obtain a b c where "trim v = a @ [0x40] @ b @ [0x2E] @ c" "a \<noteq> []" "b \<noteq> []" "c \<noteq> []"
      "\<forall>x\<in>set a. emailChar x" "\<forall>x\<in>set b. emailChar x" "\<forall>x\<in>set c. emailChar x"
      by (auto simp: emailChar_def)
    then show ?l using matches_emailRegex_bwd by metis
  qed
  moreover have "matches emailRegex (trim (js ''a@b.co''))"
    by (simp add: js_def trim_def emailRegex_def isWhiteSpace_def)
  moreover have "\<not> matches emailRegex (trim (js ''a@b''))"
    by (simp add: js_def trim_def emailRegex_def isWhiteSpace_def)
  moreover have "\<not> matches emailRegex (trim (js ''a b@c.com''))"
    by (simp add: js_def trim_def emailRegex_def isWhiteSpace_def)
  moreover have "\<not> matches emailRegex (trim (js ''''))"
    by (simp add: js_def trim_def emailRegex_def)
  ultimately show ?thesis unfolding validateEmail_fst by blast
qed

text \<open>
  C3 as stated fails in both directions: \<open>a@b@c.de\<close> is non-space characters, \<open>@\<close>,
  non-space characters, a dot and non-space characters, and validateEmail rejects it
  (a segment may not hold an \<open>@\<close>); \<open>a@b.co\<close> between spaces does not match the
  pattern, and validateEmail accepts it (the value is trimmed first).
\<close>

theorem validateEmail_pattern_counterexample:
  "matches specEmailPattern (js ''a@b@c.de'') \<and>
   \<not> fst (validateEmail (setValue Email (js ''a@b@c.de'') examplePage)) \<and>
   \<not> matches specEmailPattern (js ''  a@b.co  '') \<and>
   fst (validateEmail (setValue Email (js ''  a@b.co  '') examplePage))"
  by (simp add: validateEmail_fst js_def trim_def specEmailPattern_def emailRegex_def isWhiteSpace_def)

text \<open>C3, amended, on the address \<open>jo@example.com\<close> after a space.\<close>

theorem validateEmail_pattern_witness:
  "fst (validateEmail (setValue Email (js '' jo@example.com'') examplePage)) \<and>
   trim (js '' jo@example.com'') = js ''jo'' @ [0x40] @ js ''example'' @ [0x2E] @ js ''com''"
proof -
  have t: "trim (js '' jo@example.com'') = js ''jo'' @ [0x40] @ js ''example'' @ [0x2E] @ js ''com''"
    by (simp add: js_def trim_def isWhiteSpace_def)
  have "\<exists>a b c. trim (js '' jo@example.com'') = a @ [0x40] @ b @ [0x2E] @ c \<and> a \<noteq> [] \<and> b \<noteq> [] \<and> c \<noteq> [] \<and>
         (\<forall>x\<in>set (a @ b @ c). \<not> isWhiteSpace x \<and> x \<noteq> 0x40)"
    apply (rule exI [of _ "js ''jo''"])
    apply (rule exI [of _ "js ''example''"])
    apply (rule exI [of _ "js ''com''"])
    apply (simp add: js_def trim_def isWhiteSpace_def)
    done
  with validateEmail_pattern [of "js '' jo@example.com''" examplePage] t show ?thesis
    by blast
qed

text \<open>
  C2. validateForm returns true if and only if validateName, validateEmail and
  validateMessage each return true on the field's value, and it runs all three
  whatever the others return: after the call every field's error element is as that
  field's validator leaves it, shown exactly for the fields that are invalid.
\<close>

theorem validateForm_all_three:
  "fst (validateForm s) =
     (fst (validateName s) \<and> fst (validateEmail s) \<and> fst (validateMessage s)) \<and>
   name_field (snd (validateForm s)) = name_field (snd (validateName s)) \<and>
   email_field (snd (validateForm s)) = email_field (snd (validateEmail s)) \<and>
   message_field (snd (validateForm s)) = message_field (snd (validateMessage s)) \<and>
   error_show (name_field (snd (validateForm s))) = (\<not> fst (validateName s)) \<and>
   error_show (email_field (snd (validateForm s))) = (\<not> fst (validateEmail s)) \<and>
   error_show (message_field (snd (validateForm s))) = (\<not> fst (validateMessage s))"
proof -
  have "fst (validateForm s) =
      (fst (validateName s) \<and> fst (validateEmail s) \<and> fst (validateMessage s))"
    using validateForm_fst [of s] by simp
  moreover have n: "name_field (snd (validateForm s)) = name_field (snd (validateName s))"
    using validateForm_field [of Name s] by simp
  moreover have e: "email_field (snd (validateForm s)) = email_field (snd (validateEmail s))"
    using validateForm_field [of Email s] by simp
  moreover have m: "message_field (snd (validateForm s)) = message_field (snd (validateMessage s))"
    using validateForm_field [of Message s] by simp
  moreover have "error_show (name_field (snd (validateName s))) = (\<not> fst (validateName s))"
    using validate_field [of Name Name s] by simp
  moreover have "error_show (email_field (snd (validateEmail s))) = (\<not> fst (validateEmail s))"
    using validate_field [of Email Email s] by simp
  moreover have "error_show (message_field (snd (validateMessage s))) = (\<not> fst (validateMessage s))"
    using validate_field [of Message Message s] by simp
  ultimately show ?thesis by simp
qed

text \<open>C2 on a form whose name and message are too short and whose address is valid.\<close>

theorem validateForm_all_three_witness:
  "\<not> fst (validateForm (filled ''J'' ''jo@example.com'' ''short'')) \<and>
   error_show (name_field (snd (validateForm (filled ''J'' ''jo@example.com'' ''short'')))) \<and>
   \<not> error_show (email_field (snd (validateForm (filled ''J'' ''jo@example.com'' ''short'')))) \<and>
   error_show (message_field (snd (validateForm (filled ''J'' ''jo@example.com'' ''short''))))"
proof -
  have "\<not> fst (validateName (filled ''J'' ''jo@example.com'' ''short''))"
    by (simp add: filled_def validateName_def setValue_def examplePage_def js_def trim_def
        isWhiteSpace_def)
  moreover have "fst (validateEmail (filled ''J'' ''jo@example.com'' ''short''))"
    by (simp add: filled_def validateEmail_def setValue_def examplePage_def js_def trim_def
        isWhiteSpace_def emailRegex_def)
  moreover have "\<not> fst (validateMessage (filled ''J'' ''jo@example.com'' ''short''))"
    by (simp add: filled_def validateMessage_def setValue_def examplePage_def js_def trim_def
        isWhiteSpace_def)
  ultimately show ?thesis
    using validateForm_all_three [of "filled ''J'' ''jo@example.com'' ''short''"] by blast
qed

lemma setValue_showError:
  "setValue f w (showError f m (setValue f v s)) = showError f m (setValue f w s)"
  by (cases f) (simp_all add: setValue_def showError_def)

lemma setValue_hideError:
  "setValue f w (hideError f (setValue f v s)) = hideError f (setValue f w s)"
  by (cases f) (simp_all add: setValue_def hideError_def)

lemma validate_fst_setValue:
  "fst (validate f (setValue f (trim v) s)) = fst (validate f (setValue f v s))"
  by (cases f)
    (simp_all add: validateName_def validateEmail_def validateMessage_def setValue_def trim_idem)

text \<open>
  C10. Every validator returns on a string what it returns on the trimmed string,
  and leaves the same error display; validateEmail accepts \<open>a@b.co\<close> between spaces.
\<close>

theorem validators_ignore_outer_space:
  "fst (validateName (setValue Name (trim v) s)) = fst (validateName (setValue Name v s)) \<and>
   fst (validateEmail (setValue Email (trim v) s)) = fst (validateEmail (setValue Email v s)) \<and>
   fst (validateMessage (setValue Message (trim v) s)) =
     fst (validateMessage (setValue Message v s)) \<and>
   snd (validate f (setValue f (trim v) s)) =
     setValue f (trim v) (snd (validate f (setValue f v s))) \<and>
   fst (validateEmail (setValue Email (js ''  a@b.co  '') s))"
proof -
  have "snd (validate f (setValue f (trim v) s)) =
      setValue f (trim v) (snd (validate f (setValue f v s)))"
    by (simp add: validate_snd validate_fst_setValue setValue_showError setValue_hideError)
  moreover have "fst (validateEmail (setValue Email (js ''  a@b.co  '') s))"
    by (simp add: validateEmail_def setValue_def js_def trim_def isWhiteSpace_def emailRegex_def)
  ultimately show ?thesis
    using validate_fst_setValue [of Name v s] validate_fst_setValue [of Email v s]
      validate_fst_setValue [of Message v s]
    by simp
qed

text \<open>C10 on the name ``Jo'' between spaces.\<close>

theorem validators_ignore_outer_space_witness:
  "trim (js '' Jo '') = js ''Jo'' \<and>
   fst (validateName (setValue Name (js '' Jo '') examplePage)) \<and>
   fst (validateName (setValue Name (js ''Jo'') examplePage))"
proof -
  have t: "trim (js '' Jo '') = js ''Jo''"
    by (simp add: js_def trim_def isWhiteSpace_def)
  have "fst (validateName (setValue Name (js ''Jo'') examplePage))"
    by (simp add: validateName_def setValue_def js_def trim_def isWhiteSpace_def)
  with t validators_ignore_outer_space [of "js '' Jo ''" examplePage Name] show ?thesis
    by simp
qed

text \<open>
  C8. Running the validator of a field \<open>f\<close> leaves the error message and the error
  visibility of every other field \<open>g\<close> as they were (indeed all of \<open>g\<close>), changes no
  value, button, notification or timeout, and always completes: the blur event ends
  in a page, whether the validation fails or not.
\<close>

theorem validate_touches_own_field_only:
  assumes "f \<noteq> g"
  shows "error_text (get_field g (snd (validate f s))) = error_text (get_field g s) \<and>
    error_show (get_field g (snd (validate f s))) = error_show (get_field g s) \<and>
    get_field g (snd (validate f s)) = get_field g s \<and>
    fvalue (get_field f (snd (validate f s))) = fvalue (get_field f s) \<and>
    submit_html (snd (validate f s)) = submit_html s \<and>
    submit_disabled (snd (validate f s)) = submit_disabled s \<and>
    body_notifications (snd (validate f s)) = body_notifications s \<and>
    timers (snd (validate f s)) = timers s \<and>
    step (Blur f) s = Some (snd (validate f s))"
  using assms by (simp add: validate_field validate_rest)

text \<open>C8: a failing validateName leaves the error shown for the address in place.\<close>

theorem validate_touches_own_field_only_witness:
  "Name \<noteq> Email \<and>
   \<not> fst (validateName (snd (validateEmail (filled ''J'' ''bad'' ''short'')))) \<and>
   error_text (email_field (snd (validateName (snd (validateEmail (filled ''J'' ''bad'' ''short''))))))
     = ''Please enter a valid email address'' \<and>
   error_show (email_field (snd (validateName (snd (validateEmail (filled ''J'' ''bad'' ''short''))))))"
proof -
  let ?s = "snd (validateEmail (filled ''J'' ''bad'' ''short''))"
  have ne: "Name \<noteq> Email" by simp
  have e: "error_text (email_field ?s) = ''Please enter a valid email address'' \<and>
      error_show (email_field ?s) \<and> fvalue (name_field ?s) = js ''J''"
    by (simp add: filled_def validateEmail_def setValue_def examplePage_def js_def trim_def
        isWhiteSpace_def emailRegex_def showError_def)
  then have "\<not> fst (validateName ?s)"
    by (simp add: validateName_def js_def trim_def isWhiteSpace_def)
  with e ne validate_touches_own_field_only [OF ne, of ?s] show ?thesis
    by simp
qed

lemma onSubmit_invalid: "\<not> fst (validateForm s) \<Longrightarrow> onSubmit s = snd (validateForm s)"
  by (simp add: onSubmit_def split_beta)

text \<open>
  C1. When validateForm is false, the submit listener starts no submission: the
  submission state is what it was (Idle stays Idle), the button, the pending
  timeouts and the notifications are unchanged, and so is every field's value.
\<close>

theorem onSubmit_invalid_changes_nothing:
  assumes "\<not> fst (validateForm s)"
  shows "submissionState (onSubmit s) = submissionState s \<and>
    submit_disabled (onSubmit s) = submit_disabled s \<and>
    submit_html (onSubmit s) = submit_html s \<and>
    timers (onSubmit s) = timers s \<and>
    body_notifications (onSubmit s) = body_notifications s \<and>
    created (onSubmit s) = created s \<and>
    fvalue (name_field (onSubmit s)) = fvalue (name_field s) \<and>
    fvalue (email_field (onSubmit s)) = fvalue (email_field s) \<and>
    fvalue (message_field (onSubmit s)) = fvalue (message_field s) \<and>
    onSubmit s = snd (validateForm s)"
proof -
  have v: "fvalue (get_field f (snd (validateForm s))) = fvalue (get_field f s)" for f
    by (simp only: validateForm_field validate_fvalue)
  show ?thesis
    using v [of Name] v [of Email] v [of Message]
    by (simp add: onSubmit_invalid [OF assms] validateForm_rest submissionState_def)
qed

text \<open>C1 on the form ``J'', ``bad'', ``short'', submitted from Idle.\<close>

theorem onSubmit_invalid_changes_nothing_witness:
  "\<not> fst (validateForm (filled ''J'' ''bad'' ''short'')) \<and>
   submissionState (filled ''J'' ''bad'' ''short'') = Idle \<and>
   submissionState (onSubmit (filled ''J'' ''bad'' ''short'')) = Idle \<and>
   timers (onSubmit (filled ''J'' ''bad'' ''short'')) = [] \<and>
   fvalue (name_field (onSubmit (filled ''J'' ''bad'' ''short''))) = js ''J''"
proof -
  have "\<not> fst (validateName (filled ''J'' ''bad'' ''short''))"
    by (simp add: filled_def validateName_def setValue_def examplePage_def js_def trim_def
        isWhiteSpace_def)
  then have inv: "\<not> fst (validateForm (filled ''J'' ''bad'' ''short''))"
    by (simp add: validateForm_fst)
  have "submissionState (filled ''J'' ''bad'' ''short'') = Idle \<and>
      timers (filled ''J'' ''bad'' ''short'') = [] \<and>
      fvalue (name_field (filled ''J'' ''bad'' ''short'')) = js ''J''"
    by (simp add: filled_def setValue_def examplePage_def submissionState_def)
  with inv onSubmit_invalid_changes_nothing [OF inv] show ?thesis
    by metis
qed

section \<open>The submission\<close>

text \<open>
  C4. When the submit listener runs with validateForm true, the page goes to
  Submitting: the button is disabled and one timeout of 2000 ms is set, nothing else
  changing. Whatever the page is when that timeout fires, its callback ends in
  Succeeded: the three values are empty, exactly one notification element is made and
  attached, and the button is as it was. No step can fail. From Idle, with no other
  timeout due before, the events submit, 2000 ms, timeout end in that page, with one
  notification shown.
\<close>

theorem valid_submission_succeeds:
  assumes "fst (validateForm s)"
  shows "submissionState (onSubmit s) = Submitting \<and>
    timers (onSubmit s) = timers s @ [(now s + 2000, SubmissionDone (submit_html s))] \<and>
    body_notifications (onSubmit s) = body_notifications s \<and>
    created (onSubmit s) = created s \<and>
    fvalue (name_field (onSubmit s)) = fvalue (name_field s) \<and>
    fvalue (email_field (onSubmit s)) = fvalue (email_field s) \<and>
    fvalue (message_field (onSubmit s)) = fvalue (message_field s) \<and>
    submissionState (submissionDone (submit_html s) s') = Succeeded \<and>
    fvalue (name_field (submissionDone (submit_html s) s')) = [] \<and>
    fvalue (email_field (submissionDone (submit_html s) s')) = [] \<and>
    fvalue (message_field (submissionDone (submit_html s) s')) = [] \<and>
    body_notifications (submissionDone (submit_html s) s') = body_notifications s' @ [created s'] \<and>
    created (submissionDone (submit_html s) s') = created s' + 1 \<and>
    submit_html (submissionDone (submit_html s) s') = submit_html s \<and>
    (submissionState s = Idle \<and> list_all (\<lambda>t. now s + 2000 < fst t) (timers s) \<longrightarrow>
       run [Submit, Tick 2000, Fire] s =
         Some (submissionDone (submit_html s)
           ((onSubmit s)\<lparr>now := now s + 2000, timers := timers s\<rparr>)) \<and>
       map_option body_notifications (run [Submit, Tick 2000, Fire] s) = Some [created s])"
proof -
  note os = onSubmit_valid_facts [OF assms]
  have a: "submissionState (onSubmit s) = Submitting"
    by (simp add: submissionState_def os)
  have b: "fvalue (name_field (onSubmit s)) = fvalue (name_field s) \<and>
      fvalue (email_field (onSubmit s)) = fvalue (email_field s) \<and>
      fvalue (message_field (onSubmit s)) = fvalue (message_field s)"
    using os(7) [of Name] os(7) [of Email] os(7) [of Message] by simp
  have c: "submissionState (submissionDone (submit_html s) s') = Succeeded"
    by (simp add: submissionState_def submissionDone_facts)
  have d: "fvalue (name_field (submissionDone (submit_html s) s')) = [] \<and>
      fvalue (email_field (submissionDone (submit_html s) s')) = [] \<and>
      fvalue (message_field (submissionDone (submit_html s) s')) = []"
    using submissionDone_fvalue [of Name "submit_html s" s']
      submissionDone_fvalue [of Email "submit_html s" s']
      submissionDone_fvalue [of Message "submit_html s" s'] by simp
  have e: "run [Submit, Tick 2000, Fire] s =
        Some (submissionDone (submit_html s)
          ((onSubmit s)\<lparr>now := now s + 2000, timers := timers s\<rparr>)) \<and>
      map_option body_notifications (run [Submit, Tick 2000, Fire] s) = Some [created s]"
    if idle: "submissionState s = Idle" and later: "list_all (\<lambda>t. now s + 2000 < fst t) (timers s)"
  proof -
    from idle have en: "\<not> submit_disabled s" and none: "body_notifications s = []"
      by (simp_all add: submissionState_def split: if_splits)
    from later have "\<forall>t\<in>set (timers s). now s + 2000 < fst t"
      by (simp add: list_all_iff)
    from run_submission [OF assms en this] show ?thesis
      by (simp add: submissionDone_facts os none)
  qed
  let ?C = "submissionState s = Idle \<and> list_all (\<lambda>t. now s + 2000 < fst t) (timers s)"
  let ?R = "run [Submit, Tick 2000, Fire] s =
        Some (submissionDone (submit_html s)
          ((onSubmit s)\<lparr>now := now s + 2000, timers := timers s\<rparr>)) \<and>
      map_option body_notifications (run [Submit, Tick 2000, Fire] s) = Some [created s]"
  have f: "?C \<longrightarrow> ?R"
    using e by blast
  have g: "body_notifications (submissionDone (submit_html s) s') = body_notifications s' @ [created s']"
    "created (submissionDone (submit_html s) s') = created s' + 1"
    "submit_html (submissionDone (submit_html s) s') = submit_html s"
    by (simp_all only: submissionDone_facts)
  from a os(3) os(1) os(2) b c d g f show ?thesis
    by blast
qed

text \<open>C4 on the form ``Jo'', \<open>jo@example.com\<close>, ``Hello there, how are you?''.\<close>

theorem valid_submission_succeeds_witness:
  "fst (validateForm (filled ''Jo'' ''jo@example.com'' ''Hello there, how are you?'')) \<and>
   submissionState (filled ''Jo'' ''jo@example.com'' ''Hello there, how are you?'') = Idle \<and>
   submissionState (onSubmit (filled ''Jo'' ''jo@example.com'' ''Hello there, how are you?''))
     = Submitting \<and>
   map_option submissionState
     (run [Submit, Tick 2000, Fire] (filled ''Jo'' ''jo@example.com'' ''Hello there, how are you?''))
     = Some Succeeded \<and>
   map_option body_notifications
     (run [Submit, Tick 2000, Fire] (filled ''Jo'' ''jo@example.com'' ''Hello there, how are you?''))
     = Some [0]"
proof -
  let ?s = "filled ''Jo'' ''jo@example.com'' ''Hello there, how are you?''"
  let ?s' = "(onSubmit ?s)\<lparr>now := now ?s + 2000, timers := timers ?s\<rparr>"
  have n: "fst (validate Name ?s)"
    by (simp add: filled_def validateName_def setValue_def examplePage_def js_def trim_def
        isWhiteSpace_def)
  have e: "fst (validate Email ?s)"
    by (simp add: filled_def validateEmail_def setValue_def examplePage_def js_def trim_def
        isWhiteSpace_def emailRegex_def)
  have m: "fst (validate Message ?s)"
    by (simp add: filled_def validateMessage_def setValue_def examplePage_def js_def trim_def
        isWhiteSpace_def)
  have valid: "fst (validateForm ?s)"
    using n e m by (simp only: validateForm_fst simp_thms)
  have idle: "submissionState ?s = Idle"
    by (simp add: filled_def setValue_rest examplePage_def submissionState_def)
  have quiet: "list_all (\<lambda>t. now ?s + 2000 < fst t) (timers ?s)"
    by (simp add: filled_def setValue_rest examplePage_def)
  have first: "created ?s = 0"
    by (simp add: filled_def setValue_rest examplePage_def)
  note t = valid_submission_succeeds [OF valid, of ?s']
  from t have sub: "submissionState (onSubmit ?s) = Submitting" by blast
  from t have fin: "submissionState (submissionDone (submit_html ?s) ?s') = Succeeded" by blast
  from t idle quiet have r: "run [Submit, Tick 2000, Fire] ?s = Some (submissionDone (submit_html ?s) ?s')"
    and b: "map_option body_notifications (run [Submit, Tick 2000, Fire] ?s) = Some [created ?s]"
    by blast+
  have "map_option submissionState (run [Submit, Tick 2000, Fire] ?s) = Some Succeeded"
    by (simp only: r option.map fin)
  with valid idle sub b first show ?thesis
    by (simp only: simp_thms)
qed

section \<open>Notifications\<close>

text \<open>
  C5, amended. In every reachable page the attached notifications are distinct
  elements, each with its removal timeout still pending and due within 5000 ms.
  showSuccessMessage attaches a new element after those already attached and removes
  none: one more notification is shown than before, so the new one is alone exactly
  when none was shown.
\<close>

theorem notifications_stack:
  assumes "reachable s"
  shows "distinct (body_notifications s) \<and>
    (\<forall>n\<in>set (body_notifications s). n < created s \<and>
       (\<exists>d. d \<le> now s + 5000 \<and> (d, AutoRemove n) \<in> set (timers s))) \<and>
    created s \<notin> set (body_notifications s) \<and>
    body_notifications (showSuccessMessage s) = body_notifications s @ [created s] \<and>
    length (body_notifications (showSuccessMessage s)) = length (body_notifications s) + 1"
proof -
  from assms have t: "tracked s" by (rule reachable_tracked)
  then have "created s \<notin> set (body_notifications s)"
    unfolding tracked_iff by blast
  with t show ?thesis
    by (simp add: tracked_iff showSuccessMessage_facts)
qed

text \<open>
  C5 as stated fails: a second submission that completes while the first
  notification is still shown leaves two notifications attached, at time 4000 with
  the first due to go at 7000.
\<close>

theorem notifications_stack_counterexample:
  "pageLoaded examplePage \<and> run resubmission examplePage = Some stackedPage \<and>
   reachable stackedPage \<and> body_notifications stackedPage = [0, 1] \<and>
   length (body_notifications stackedPage) = 2"
  using run_resubmission stackedPage_reachable
  by (simp add: pageLoaded_def examplePage_def stackedPage_def)

text \<open>C5, amended, on that page: a third notification would join the two.\<close>

theorem notifications_stack_witness:
  "reachable stackedPage \<and> distinct (body_notifications stackedPage) \<and>
   body_notifications (showSuccessMessage stackedPage) = [0, 1, 2]"
  using notifications_stack [OF stackedPage_reachable] stackedPage_reachable
  by (simp add: stackedPage_def)

text \<open>
  C9. On a page where no notification is attached (or where this one is not), the
  removal timeout's callback and the close button's listener both leave the page as
  it is; so does the callback after the notification was closed by hand. When that
  timeout fires, the step completes and only takes the timeout off the pending list.
\<close>

theorem dismissing_nothing_changes_nothing:
  "(body_notifications s = [] \<longrightarrow> autoRemove n s = s \<and> closeNotification n s = s) \<and>
   (n \<notin> set (body_notifications s) \<longrightarrow> autoRemove n s = s \<and> closeNotification n s = s) \<and>
   autoRemove n (closeNotification n s) = closeNotification n s \<and>
   (earliest (timers s) = Some (d, AutoRemove n) \<and> d \<le> now s \<and>
      n \<notin> set (body_notifications s) \<longrightarrow>
      step Fire s = Some (s\<lparr>timers := remove1 (d, AutoRemove n) (timers s)\<rparr>))"
  by (simp add: autoRemove_def closeNotification_def removeElement_def)

text \<open>C9 on the page where notification 0 was closed by hand and its timeout is due.\<close>

theorem dismissing_nothing_changes_nothing_witness:
  "run dismissal examplePage = Some dismissedPage \<and>
   body_notifications dismissedPage = [] \<and>
   autoRemove 0 dismissedPage = dismissedPage \<and>
   closeNotification 0 dismissedPage = dismissedPage \<and>
   step Fire dismissedPage = Some (dismissedPage\<lparr>timers := []\<rparr>)"
proof -
  have b: "body_notifications dismissedPage = []"
    by (simp add: dismissedPage_def)
  have e: "earliest (timers dismissedPage) = Some (7000, AutoRemove 0) \<and> 7000 \<le> now dismissedPage \<and>
      remove1 (7000, AutoRemove 0) (timers dismissedPage) = []"
    by (simp add: dismissedPage_def)
  from dismissing_nothing_changes_nothing [of dismissedPage 0 7000] b e run_dismissal
  show ?thesis by simp
qed

end
